theory Spec2Isabelle
  imports Main "HOL-Library.Word" "HOL-Library.List_Lexorder" "HOL-Library.Multiset"
begin

section \<open>JavaScript strings\<close>

text \<open>
  A JavaScript string is a sequence of UTF-16 code units; \<open>===\<close> on strings compares the
  code units one by one, which is equality of the lists.  \<open>js\<close> writes a literal.
\<close>

type_synonym jsstring = "16 word list"

definition js :: "string \<Rightarrow> jsstring" where
  "js s = map (\<lambda>c. of_nat (of_char c)) s"

definition LF :: "16 word" where
  "LF = 0x0A"

text \<open>
  \<open>String.prototype.trimStart\<close> removes the leading code units that are WhiteSpace or
  LineTerminator of ECMAScript: TAB, VT, FF, SP, NBSP, ZWNBSP and the other space
  separators of Unicode; LF, CR, LS and PS.
\<close>

definition isWhiteSpace :: "16 word \<Rightarrow> bool" where
  "isWhiteSpace c \<longleftrightarrow>
     c = 0x09 \<or> c = 0x0B \<or> c = 0x0C \<or> c = 0x20 \<or> c = 0xA0 \<or> c = 0x1680 \<or>
     (0x2000 \<le> c \<and> c \<le> 0x200A) \<or> c = 0x202F \<or> c = 0x205F \<or> c = 0x3000 \<or> c = 0xFEFF"

definition isLineTerminator :: "16 word \<Rightarrow> bool" where
  "isLineTerminator c \<longleftrightarrow> c = 0x0A \<or> c = 0x0D \<or> c = 0x2028 \<or> c = 0x2029"

definition trimStart :: "jsstring \<Rightarrow> jsstring" where
  "trimStart s = dropWhile (\<lambda>c. isWhiteSpace c \<or> isLineTerminator c) s"

definition startsWith :: "jsstring \<Rightarrow> jsstring \<Rightarrow> bool" where
  "startsWith s p \<longleftrightarrow> take (length p) s = p"

text \<open>\<open>Array.prototype.join\<close> on an array of strings.\<close>

fun join :: "jsstring \<Rightarrow> jsstring list \<Rightarrow> jsstring" where
  "join sep [] = []"
| "join sep [x] = x"
| "join sep (x # y # ys) = x @ sep @ join sep (y # ys)"

section \<open>The command line, the YAML library and the outside world\<close>

text \<open>
  \<open>argv\<close> is the object that yargs returns.  \<open>output\<close> is \<open>undefined\<close> (\<open>None\<close>) when the
  option is absent; \<open>stdout\<close>, \<open>check\<close> and \<open>forceQuotes\<close> are \<open>undefined\<close> or \<open>true\<close>, read
  only for their truth value.
\<close>

record argv =
  input :: "jsstring list"
  output_arg :: "jsstring option"
  stdout :: bool
  check :: bool
  indent :: int
  encoding :: jsstring
  quotingStyle :: jsstring
  forceQuotes :: bool
  lineWidth :: int

text \<open>The options object that the script hands to \<open>yaml.dump\<close>.\<close>

record dump_options =
  sortKeys :: bool
  dump_indent :: int
  dump_lineWidth :: int
  quotingType :: jsstring
  dump_forceQuotes :: bool

text \<open>An exception value: what \<open>fs\<close> or js-yaml throws, or hands to a callback.\<close>

datatype error = IOError jsstring | YAMLException jsstring

text \<open>
  js-yaml is a dependency, not part of the script: \<open>loadAll\<close> and \<open>dump\<close> are parameters.
  Either of them may throw.  \<open>'doc\<close> is the type of the values that \<open>loadAll\<close> returns.
\<close>

record 'doc yaml =
  loadAll :: "jsstring \<Rightarrow> error + 'doc list"
  dump :: "'doc \<Rightarrow> dump_options \<Rightarrow> error + jsstring"

text \<open>The first argument of \<open>fs.readFileSync\<close> and of \<open>fs.writeFile\<close>: a descriptor or a path.\<close>

datatype target = Fd nat | Path jsstring

definition stdin_fd :: nat where
  "stdin_fd = 0"

definition stdout_fd :: nat where
  "stdout_fd = 1"

text \<open>
  The outside world: whether standard input is a terminal, what a synchronous read
  returns or throws, and the error (if any) that a write hands to its callback.
  The file system that the reads see is taken as fixed during the run.
\<close>

record env =
  isTTY :: bool
  readFileSync :: "target \<Rightarrow> jsstring \<Rightarrow> error + jsstring"
  writeFile :: "target \<Rightarrow> jsstring \<Rightarrow> error option"

section \<open>The observable effects and the state of the process\<close>

datatype event =
    ReadFileSync target
  | WriteFile target jsstring
  | ConsoleWarn jsstring
  | ConsoleError_misuse
  | ConsoleError error

text \<open>
  \<open>success\<close> is the script's global flag; \<open>trace\<close> lists the effects in the order in which
  they happen; \<open>pending\<close> holds the writes that \<open>fs.writeFile\<close> has been asked for and
  whose callbacks have not run yet.
\<close>

record state =
  success :: bool
  trace :: "event list"
  pending :: "(target \<times> jsstring) list"

definition init :: state where
  "init = \<lparr>success = True, trace = [], pending = []\<rparr>"

definition effects :: "event list \<Rightarrow> state \<Rightarrow> state" where
  "effects evs st = st\<lparr>trace := trace st @ evs\<rparr>"

section \<open>The script\<close>

text \<open>Truthiness of \<open>argv.output\<close>: \<open>undefined\<close> and the empty string are falsy.\<close>

definition truthy :: "jsstring option \<Rightarrow> bool" where
  "truthy v = (case v of None \<Rightarrow> False | Some s \<Rightarrow> s \<noteq> [])"

text \<open>Lines 95 to 98: the destination of an input's result.\<close>

definition output_of :: "argv \<Rightarrow> jsstring \<Rightarrow> target" where
  "output_of a file =
     (let isStdin = (file = js ''-'') in
      if stdout a \<or> output_arg a = Some (js ''.'') \<or> (isStdin \<and> \<not> truthy (output_arg a))
      then Fd stdout_fd
      else (case output_arg a of
              None \<Rightarrow> Path file
            | Some p \<Rightarrow> if p \<noteq> [] then Path p else Path file))"

text \<open>Lines 104 to 110: the options of \<open>yaml.dump\<close>.\<close>

definition dump_opts :: "argv \<Rightarrow> dump_options" where
  "dump_opts a =
     \<lparr>sortKeys = True,
      dump_indent = indent a,
      dump_lineWidth = lineWidth a,
      quotingType = (if quotingStyle a = js ''double'' then [0x22] else [0x27]),
      dump_forceQuotes = forceQuotes a\<rparr>"

text \<open>\<open>documents.map(doc => yaml.dump(doc, ...))\<close>: the first exception ends the map.\<close>

fun map_dump :: "('doc \<Rightarrow> error + jsstring) \<Rightarrow> 'doc list \<Rightarrow> error + jsstring list" where
  "map_dump f [] = Inr []"
| "map_dump f (d # ds) =
     (case f d of
        Inl e \<Rightarrow> Inl e
      | Inr s \<Rightarrow> (case map_dump f ds of Inl e \<Rightarrow> Inl e | Inr ss \<Rightarrow> Inr (s # ss)))"

definition hasDocumentStart :: "jsstring \<Rightarrow> bool" where
  "hasDocumentStart content = startsWith (trimStart content) (js ''---'')"

definition marker :: jsstring where
  "marker = js ''---'' @ [LF]"

text \<open>
  Lines 102 to 114: from the text of an input to \<open>sortedContent\<close>, or to the exception
  thrown on the way.  This is the operation that the specification calls sortAndFormat.
\<close>

definition sortedContent :: "'doc yaml \<Rightarrow> argv \<Rightarrow> jsstring \<Rightarrow> error + jsstring" where
  "sortedContent y a content =
     (case loadAll y content of
        Inl e \<Rightarrow> Inl e
      | Inr documents \<Rightarrow>
          (case map_dump (\<lambda>doc. dump y doc (dump_opts a)) documents of
             Inl e \<Rightarrow> Inl e
           | Inr sortedDocuments \<Rightarrow>
               Inr ((if hasDocumentStart content then marker else [])
                    @ join marker sortedDocuments)))"

definition source_of :: "jsstring \<Rightarrow> target" where
  "source_of file = (if file = js ''-'' then Fd stdin_fd else Path file)"

text \<open>
  Lines 87 to 135, the body of the \<open>forEach\<close> callback, run on one input.  \<open>Inl\<close> is
  \<open>process.exit(22)\<close>, which ends the process inside the \<open>try\<close>; \<open>Inr\<close> is the state in
  which the next input starts.  \<open>fs.writeFile\<close> only queues the write: its callback runs
  after the script's last line.
\<close>

definition body :: "'doc yaml \<Rightarrow> env \<Rightarrow> argv \<Rightarrow> jsstring \<Rightarrow> state \<Rightarrow> (nat \<times> state) + state" where
  "body y w a file st =
     (let isStdin = (file = js ''-'') in
      if isStdin \<and> isTTY w then Inl (22, effects [ConsoleError_misuse] st)
      else
        let out = output_of a file;
            st1 = effects [ReadFileSync (source_of file)] st
        in case readFileSync w (source_of file) (encoding a) of
             Inl e \<Rightarrow> Inr (effects [ConsoleError e] (st1\<lparr>success := False\<rparr>))
           | Inr content \<Rightarrow>
               (case sortedContent y a content of
                  Inl e \<Rightarrow> Inr (effects [ConsoleError e] (st1\<lparr>success := False\<rparr>))
                | Inr sc \<Rightarrow>
                    if check a then
                      (if sc \<noteq> content
                       then Inr (effects [ConsoleWarn file] (st1\<lparr>success := False\<rparr>))
                       else Inr st1)
                    else
                      Inr (effects [WriteFile out sc]
                             (st1\<lparr>pending := pending st1 @ [(out, sc)]\<rparr>))))"

text \<open>Line 86: \<open>argv.input.forEach\<close>, the inputs in the order given.\<close>

fun forEach :: "'doc yaml \<Rightarrow> env \<Rightarrow> argv \<Rightarrow> jsstring list \<Rightarrow> state \<Rightarrow> (nat \<times> state) + state" where
  "forEach y w a [] st = Inr st"
| "forEach y w a (file # files) st =
     (case body y w a file st of
        Inl ex \<Rightarrow> Inl ex
      | Inr st' \<Rightarrow> forEach y w a files st')"

text \<open>
  Lines 125 to 130, the callback of one queued write, run by the event loop once the
  script has reached its end.
\<close>

definition callback :: "env \<Rightarrow> target \<times> jsstring \<Rightarrow> state \<Rightarrow> state" where
  "callback w p st =
     (case writeFile w (fst p) (snd p) of
        None \<Rightarrow> st
      | Some e \<Rightarrow> effects [ConsoleError e] (st\<lparr>success := False\<rparr>))"

fun event_loop :: "env \<Rightarrow> (target \<times> jsstring) list \<Rightarrow> state \<Rightarrow> state" where
  "event_loop w [] st = st"
| "event_loop w (p # ps) st = event_loop w ps (callback w p st)"

text \<open>
  The whole script: the loop, then lines 138 to 140.  \<open>process.exit(1)\<close> ends the process
  with the callbacks still queued.  If it is not reached, the event loop runs the
  callbacks and the process ends with exit code 0: nothing reads \<open>success\<close> again and
  nothing sets \<open>process.exitCode\<close>.
\<close>

definition main :: "'doc yaml \<Rightarrow> env \<Rightarrow> argv \<Rightarrow> nat \<times> state" where
  "main y w a =
     (case forEach y w a (input a) init of
        Inl ex \<Rightarrow> ex
      | Inr st \<Rightarrow>
          if \<not> success st then (1, st)
          else (0, event_loop w (pending st) (st\<lparr>pending := []\<rparr>)))"

section \<open>Reading the effects of a run\<close>

text \<open>
  \<open>after st d\<close> is the state reached from \<open>st\<close> by a stretch of the run that, started in
  \<open>init\<close>, ends in \<open>d\<close>: the flag can only fall, effects and queued writes are appended.
\<close>

definition after :: "state \<Rightarrow> state \<Rightarrow> state" where
  "after st d =
     \<lparr>success = (success st \<and> success d),
      trace = trace st @ trace d,
      pending = pending st @ pending d\<rparr>"

fun is_write :: "event \<Rightarrow> bool" where
  "is_write (WriteFile t s) = True"
| "is_write ev = False"

fun write_targets :: "event list \<Rightarrow> target list" where
  "write_targets [] = []"
| "write_targets (WriteFile t s # evs) = t # write_targets evs"
| "write_targets (ev # evs) = write_targets evs"

section \<open>Documents and key sorting\<close>

text \<open>
  Modelled from the spec: js-yaml's \<open>dump\<close> with \<open>sortKeys: true\<close> is not part of the
  script.  Section 3 of the specification describes a document as a tree of scalars,
  sequences and mappings, the entries of a mapping in source order; section 4.1 has every
  mapping's keys sorted recursively in ascending order, compared as strings, sequences
  and scalars left as they are.  The order on \<open>jsstring\<close> is the lexicographic order on
  code units, which is how JavaScript compares strings.  A document is a tree: nodes
  shared through anchors and aliases are not represented.
\<close>

datatype node =
    Scalar jsstring
  | Sequence "node list"
  | Mapping "(jsstring \<times> node) list"

text \<open>
  Modelled from the spec: the recursive key sort of section 4.1, step 2, which js-yaml
  performs inside \<open>dump\<close>.  \<open>sort_key\<close> is a stable insertion sort.
\<close>

primrec sort_keys :: "node \<Rightarrow> node" where
  "sort_keys (Scalar s) = Scalar s"
| "sort_keys (Sequence xs) = Sequence (map sort_keys xs)"
| "sort_keys (Mapping kvs) = Mapping (sort_key fst (map (map_prod id sort_keys) kvs))"

text \<open>
  Modelled from the spec: the library as section 4.1 describes it, a parser and a
  serializer of sorted trees.  The parser \<open>parse\<close> and the layout \<open>write\<close> of a tree
  under the formatting options stay parameters.
\<close>

definition js_yaml ::
  "(jsstring \<Rightarrow> error + node list) \<Rightarrow> (dump_options \<Rightarrow> node \<Rightarrow> error + jsstring) \<Rightarrow> node yaml"
where
  "js_yaml parse write =
     \<lparr>loadAll = parse,
      dump = (\<lambda>doc opts. write opts (if sortKeys opts then sort_keys doc else doc))\<rparr>"

section \<open>The texts that the serializer returns\<close>

text \<open>
  js-yaml's \<open>dump\<close> ends its result with a line feed, and starts it with the first
  character of a node, never with the three dashes of a marker.
\<close>

definition dumped_text :: "jsstring \<Rightarrow> bool" where
  "dumped_text s \<longleftrightarrow> s \<noteq> [] \<and> last s = LF \<and> \<not> startsWith s (js ''---'')"

text \<open>The lines of a text, each with the line feed that ends it.\<close>

fun lines_of :: "jsstring \<Rightarrow> jsstring list" where
  "lines_of [] = []"
| "lines_of (c # cs) =
     (if c = LF then [c] # lines_of cs
      else (case lines_of cs of [] \<Rightarrow> [[c]] | l # ls \<Rightarrow> (c # l) # ls))"

text \<open>The runs of lines between the lines that are a marker.\<close>

fun groups :: "jsstring list \<Rightarrow> jsstring list list" where
  "groups [] = [[]]"
| "groups (l # ls) =
     (if l = marker then [] # groups ls
      else (case groups ls of [] \<Rightarrow> [[l]] | g # gs \<Rightarrow> (l # g) # gs))"

text \<open>
  The documents of a text as the specification counts them: after a leading marker line,
  if there is one, the pieces that the marker lines separate.  The empty text holds no
  document.
\<close>

definition documents_in :: "jsstring \<Rightarrow> jsstring list" where
  "documents_in s =
     (let ls = lines_of s;
          rest = (case ls of [] \<Rightarrow> [] | l # ls' \<Rightarrow> if l = marker then ls' else ls)
      in if rest = [] then [] else map concat (groups rest))"

text \<open>A serialized document ends with a line feed and has no line that is a marker.\<close>

definition separable :: "jsstring \<Rightarrow> bool" where
  "separable s \<longleftrightarrow> s \<noteq> [] \<and> last s = LF \<and> marker \<notin> set (lines_of s)"

section \<open>Example runs\<close>

text \<open>
  The texts of the specification's scenarios, with the documents that they hold, and a
  layout for mappings of plain scalars, one \<open>key: value\<close> per line.
\<close>

definition text_ba :: jsstring where
  "text_ba = js ''b: 2'' @ [LF] @ js ''a: 1'' @ [LF]"

definition text_ab :: jsstring where
  "text_ab = js ''a: 1'' @ [LF] @ js ''b: 2'' @ [LF]"

definition text_bad :: jsstring where
  "text_bad = js ''a: '' @ [0x27] @ js ''x'' @ [LF]"

definition doc_ba :: node where
  "doc_ba = Mapping [(js ''b'', Scalar (js ''2'')), (js ''a'', Scalar (js ''1''))]"

definition doc_ab :: node where
  "doc_ab = Mapping [(js ''a'', Scalar (js ''1'')), (js ''b'', Scalar (js ''2''))]"

definition text_marked :: jsstring where
  "text_marked = js ''---'' @ [LF] @ text_ba"

definition text_two :: jsstring where
  "text_two = js ''b: 1'' @ [LF] @ js ''---'' @ [LF] @ js ''a: 1'' @ [LF]"

text \<open>
  A string that begins with the ideographic space U+3000, which \<open>trimStart\<close> removes and
  YAML does not take for white space, followed by three dashes: as a document of its
  own, quoted and plain, and as the key of a mapping.
\<close>

definition scalar_note :: jsstring where
  "scalar_note = [0x3000] @ js ''--- note''"

definition text_note_quoted :: jsstring where
  "text_note_quoted = [0x27] @ scalar_note @ [0x27, LF]"

definition text_note :: jsstring where
  "text_note = scalar_note @ [LF]"

definition key_dashes :: jsstring where
  "key_dashes = [0x3000] @ js ''---''"

definition doc_dashes_first :: node where
  "doc_dashes_first = Mapping [(key_dashes, Scalar (js ''1'')), (js ''a'', Scalar (js ''2''))]"

definition doc_dashes_last :: node where
  "doc_dashes_last = Mapping [(js ''a'', Scalar (js ''2'')), (key_dashes, Scalar (js ''1''))]"

definition text_dashes_first :: jsstring where
  "text_dashes_first = key_dashes @ js '': 1'' @ [LF] @ js ''a: 2'' @ [LF]"

definition text_dashes_last :: jsstring where
  "text_dashes_last = js ''a: 2'' @ [LF] @ key_dashes @ js '': 1'' @ [LF]"

definition ex_parse :: "jsstring \<Rightarrow> error + node list" where
  "ex_parse s =
     (if s = text_ba then Inr [doc_ba]
      else if s = text_ab then Inr [doc_ab]
      else if s = text_marked then Inr [doc_ba]
      else if s = js ''---'' @ [LF] @ text_ab then Inr [doc_ab]
      else if s = text_two
        then Inr [Mapping [(js ''b'', Scalar (js ''1''))], Mapping [(js ''a'', Scalar (js ''1''))]]
      else if s = text_note_quoted then Inr [Scalar scalar_note]
      else if s = text_note then Inr [Scalar scalar_note]
      else if s = text_dashes_first then Inr [doc_dashes_first]
      else if s = text_dashes_last then Inr [doc_dashes_last]
      else Inl (YAMLException (js ''unexpected end of the stream within a single quoted scalar'')))"

fun ex_line :: "jsstring \<times> node \<Rightarrow> jsstring" where
  "ex_line (k, Scalar v) = k @ js '': '' @ v @ [LF]"
| "ex_line (k, v) = k @ js '':'' @ [LF]"

fun ex_write :: "dump_options \<Rightarrow> node \<Rightarrow> error + jsstring" where
  "ex_write opts (Mapping kvs) = Inr (concat (map ex_line kvs))"
| "ex_write opts (Scalar v) = Inr (v @ [LF])"
| "ex_write opts (Sequence xs) = Inl (YAMLException (js ''unacceptable kind of an object to dump''))"


definition ex_yaml :: "node yaml" where
  "ex_yaml = js_yaml ex_parse ex_write"

definition ex_read :: "target \<Rightarrow> jsstring \<Rightarrow> error + jsstring" where
  "ex_read t enc =
     (if t = Path (js ''a.yml'') then Inr text_ba
      else if t = Path (js ''sorted.yml'') then Inr text_ab
      else if t = Path (js ''bad.yml'') then Inr text_bad
      else Inl (IOError (js ''ENOENT'')))"

definition ex_env :: "bool \<Rightarrow> error option \<Rightarrow> env" where
  "ex_env tty werr = \<lparr>isTTY = tty, readFileSync = ex_read, writeFile = (\<lambda>t s. werr)\<rparr>"

definition ex_argv :: "jsstring list \<Rightarrow> jsstring option \<Rightarrow> bool \<Rightarrow> argv" where
  "ex_argv files out chk =
     \<lparr>input = files, output_arg = out, stdout = False, check = chk, indent = 2,
      encoding = js ''utf8'', quotingStyle = js ''single'', forceQuotes = False,
      lineWidth = 80\<rparr>"

section \<open>Properties of the loop\<close>

text \<open>
  The body of the loop reads the state only to extend it, so a stretch of the run can be
  studied from \<open>init\<close> and placed after any state.
\<close>

lemma after_assoc: "after (after s t) u = after s (after t u)"
  by (simp add: after_def)

lemma body_after:
  "body y w a file st =
     (case body y w a file init of
        Inl (c, d) \<Rightarrow> Inl (c, after st d)
      | Inr d \<Rightarrow> Inr (after st d))"
  by (simp add: body_def after_def init_def effects_def Let_def split: sum.splits)

lemma forEach_after:
  "forEach y w a files st =
     (case forEach y w a files init of
        Inl (c, d) \<Rightarrow> Inl (c, after st d)
      | Inr d \<Rightarrow> Inr (after st d))"
proof (induction files arbitrary: st)
  case Nil
  show ?case by (simp add: after_def init_def)
next
  case (Cons f fs)
  note b = body_after [of y w a f st]
  show ?case
  proof (cases "body y w a f init")
    case (Inl ex)
    then show ?thesis
      using b by (simp split: prod.splits)
  next
    case (Inr d)
    then have "forEach y w a (f # fs) st = forEach y w a fs (after st d)"
      using b by simp
    also have "\<dots> = (case forEach y w a fs init of
        Inl (c, e) \<Rightarrow> Inl (c, after (after st d) e)
      | Inr e \<Rightarrow> Inr (after (after st d) e))"
      by (rule Cons.IH)
    finally show ?thesis
      using Inr Cons.IH [of d]
      by (simp add: after_assoc split: sum.splits prod.splits)
  qed
qed

lemma forEach_append:
  "forEach y w a (xs @ ys) st =
     (case forEach y w a xs st of Inl ex \<Rightarrow> Inl ex | Inr st' \<Rightarrow> forEach y w a ys st')"
  by (induction xs arbitrary: st) (auto split: sum.splits)

lemma body_no_misuse:
  "\<not> (file = js ''-'' \<and> isTTY w) \<Longrightarrow> \<exists>d. body y w a file st = Inr d"
  by (auto simp: body_def Let_def split: sum.splits)

lemma body_misuse:
  "file = js ''-'' \<Longrightarrow> isTTY w \<Longrightarrow>
     body y w a file st = Inl (22, effects [ConsoleError_misuse] st)"
  by (simp add: body_def)

lemma forEach_no_misuse:
  "\<not> (isTTY w \<and> js ''-'' \<in> set files) \<Longrightarrow> \<exists>d. forEach y w a files st = Inr d"
proof (induction files arbitrary: st)
  case Nil
  show ?case by simp
next
  case (Cons f fs)
  from Cons.prems have "\<not> (f = js ''-'' \<and> isTTY w)" by auto
  then obtain d where d: "body y w a f st = Inr d"
    using body_no_misuse by blast
  from Cons.prems have "\<not> (isTTY w \<and> js ''-'' \<in> set fs)" by auto
  then show ?case using Cons.IH [of d] d by simp
qed

lemma forEach_misuse:
  assumes "js ''-'' \<in> set files" and "isTTY w"
  shows "\<exists>d. forEach y w a (takeWhile (\<lambda>f. f \<noteq> js ''-'') files) st = Inr d \<and>
             forEach y w a files st = Inl (22, effects [ConsoleError_misuse] d)"
proof -
  let ?pre = "takeWhile (\<lambda>f. f \<noteq> js ''-'') files"
  let ?post = "dropWhile (\<lambda>f. f \<noteq> js ''-'') files"
  have "js ''-'' \<notin> set ?pre"
    by (auto dest: set_takeWhileD)
  then obtain d where d: "forEach y w a ?pre st = Inr d"
    using forEach_no_misuse [of w ?pre y a st] by auto
  have "?post \<noteq> []" using assms(1) by (auto simp: dropWhile_eq_Nil_conv)
  then obtain rest where post: "?post = js ''-'' # rest"
    using hd_dropWhile [of "\<lambda>f. f \<noteq> js ''-''" files]
    by (cases ?post) auto
  have "forEach y w a files st = forEach y w a (?pre @ ?post) st" by simp
  also have "\<dots> = forEach y w a ?post d"
    using d by (simp only: forEach_append sum.case)
  also have "\<dots> = Inl (22, effects [ConsoleError_misuse] d)"
    using post assms(2) by (simp add: body_misuse)
  finally show ?thesis using d by blast
qed

section \<open>Check mode\<close>

lemma body_check_no_write:
  assumes "check a" and "body y w a file init = Inr d \<or> body y w a file init = Inl (c, d)"
  shows "pending d = [] \<and> filter is_write (trace d) = []"
  using assms
  by (auto simp: body_def Let_def effects_def init_def split: if_splits sum.splits)

lemma forEach_check_no_write:
  assumes "check a"
  shows "(forEach y w a files init = Inr d \<or> forEach y w a files init = Inl (c, d)) \<Longrightarrow>
         pending d = [] \<and> filter is_write (trace d) = []"
proof (induction files arbitrary: d c)
  case Nil
  then show ?case by (auto simp: init_def)
next
  case (Cons f fs)
  show ?case
  proof (cases "body y w a f init")
    case (Inl ex)
    then show ?thesis
      using Cons.prems body_check_no_write [OF assms, of y w f "snd ex" "fst ex"]
      by (cases ex) auto
  next
    case (Inr d0)
    have d0: "pending d0 = [] \<and> filter is_write (trace d0) = []"
      using body_check_no_write [OF assms, of y w f d0] Inr by simp
    have fe: "forEach y w a (f # fs) init = forEach y w a fs d0"
      using Inr by simp
    show ?thesis
    proof (cases "forEach y w a fs init")
      case (Inl ex)
      obtain c' e where ex: "ex = (c', e)" by (cases ex)
      have "pending e = [] \<and> filter is_write (trace e) = []"
        using Cons.IH [of e c'] Inl ex by simp
      moreover have "forEach y w a (f # fs) init = Inl (c', after d0 e)"
        using fe forEach_after [of y w a fs d0] Inl ex by simp
      ultimately show ?thesis using Cons.prems d0 by (auto simp: after_def)
    next
      case (Inr e)
      have "pending e = [] \<and> filter is_write (trace e) = []"
        using Cons.IH [of e c] Inr by simp
      moreover have "forEach y w a (f # fs) init = Inr (after d0 e)"
        using fe forEach_after [of y w a fs d0] Inr by simp
      ultimately show ?thesis using Cons.prems d0 by (auto simp: after_def)
    qed
  qed
qed

text \<open>
  Claim C8.  Check mode is read-only: in a run with \<open>--check\<close>, whatever the inputs hold
  and however the run ends, \<open>fs.writeFile\<close> is never called, so that no write is queued
  and no write event occurs; the files on disk are left as they were.
\<close>

theorem check_mode_read_only:
  assumes "check a"
  shows "pending (snd (main y w a)) = [] \<and> filter is_write (trace (snd (main y w a))) = []"
proof (cases "forEach y w a (input a) init")
  case (Inl ex)
  then show ?thesis
    using forEach_check_no_write [OF assms, of y w "input a" "snd ex" "fst ex"]
    by (simp add: main_def)
next
  case (Inr d)
  then have "pending d = [] \<and> filter is_write (trace d) = []"
    using forEach_check_no_write [OF assms, of y w "input a" d] by simp
  then show ?thesis using Inr by (simp add: main_def)
qed

theorem check_mode_read_only_witness:
  "check (ex_argv [js ''a.yml''] None True) \<and>
   pending (snd (main ex_yaml (ex_env False None) (ex_argv [js ''a.yml''] None True))) = [] \<and>
   filter is_write
     (trace (snd (main ex_yaml (ex_env False None) (ex_argv [js ''a.yml''] None True)))) = []"
  using check_mode_read_only [of "ex_argv [js ''a.yml''] None True" ex_yaml "ex_env False None"]
  by (simp add: ex_argv_def)

section \<open>Standard input without a pipe\<close>

text \<open>
  Claim C2, as amended.  The test for a terminal on standard input sits inside the loop.
  When the input list holds \<open>-\<close> and standard input is a terminal, the run ends with exit
  code 22 when the loop reaches the first \<open>-\<close>: the inputs listed before it have been
  processed as usual, then the message is printed, and no input from the first \<open>-\<close> on
  is read, parsed, checked or written.
\<close>

theorem misuse_exit_22:
  assumes "js ''-'' \<in> set (input a)" and "isTTY w"
  shows "\<exists>d. forEach y w a (takeWhile (\<lambda>f. f \<noteq> js ''-'') (input a)) init = Inr d \<and>
             main y w a = (22, effects [ConsoleError_misuse] d)"
  using forEach_misuse [OF assms, of y a init] by (auto simp: main_def)

theorem misuse_exit_22_witness:
  "js ''-'' \<in> set (input (ex_argv [js ''a.yml'', js ''-'', js ''sorted.yml''] None False)) \<and>
   isTTY (ex_env True None) \<and>
   main ex_yaml (ex_env True None) (ex_argv [js ''a.yml'', js ''-'', js ''sorted.yml''] None False) =
     (22, \<lparr>success = True,
           trace = [ReadFileSync (Path (js ''a.yml'')), WriteFile (Path (js ''a.yml'')) text_ab,
                    ConsoleError_misuse],
           pending = [(Path (js ''a.yml''), text_ab)]\<rparr>)"
proof -
  let ?a = "ex_argv [js ''a.yml'', js ''-'', js ''sorted.yml''] None False"
  let ?w = "ex_env True None"
  have 1: "js ''-'' \<in> set (input ?a)" by code_simp
  have 2: "isTTY ?w" by code_simp
  have 3: "takeWhile (\<lambda>f. f \<noteq> js ''-'') (input ?a) = [js ''a.yml'']" by code_simp
  have 4: "forEach ex_yaml ?w ?a [js ''a.yml''] init =
     Inr \<lparr>success = True,
           trace = [ReadFileSync (Path (js ''a.yml'')), WriteFile (Path (js ''a.yml'')) text_ab],
           pending = [(Path (js ''a.yml''), text_ab)]\<rparr>" by code_simp
  from misuse_exit_22 [OF 1 2, of ex_yaml] show ?thesis
    using 1 2 by (simp only: 3 4) (auto simp: effects_def)
qed

text \<open>
  The claim as written has no input processed at all.  With the inputs \<open>a.yml\<close> and \<open>-\<close>
  and a terminal on standard input, \<open>a.yml\<close> is read, sorted and handed to
  \<open>fs.writeFile\<close> before the run ends with exit code 22.
\<close>

theorem misuse_counterexample:
  "js ''-'' \<in> set (input (ex_argv [js ''a.yml'', js ''-''] None False)) \<and>
   isTTY (ex_env True None) \<and>
   main ex_yaml (ex_env True None) (ex_argv [js ''a.yml'', js ''-''] None False) =
     (22, \<lparr>success = True,
           trace = [ReadFileSync (Path (js ''a.yml'')), WriteFile (Path (js ''a.yml'')) text_ab,
                    ConsoleError_misuse],
           pending = [(Path (js ''a.yml''), text_ab)]\<rparr>)"
  by code_simp

section \<open>What check mode reports\<close>

text \<open>
  Claim C3.  In check mode, for an input that could be read, the input passes without a
  finding (nothing is printed and \<open>success\<close> keeps its value) if and only if
  \<open>sortedContent\<close> is the very text that was read; and the warning that the file is not
  sorted is printed, and \<open>success\<close> cleared, if and only if \<open>sortedContent\<close> is a text that
  differs from it in any code unit.
\<close>

theorem check_sorted_iff_equal:
  assumes "check a"
    and "\<not> (file = js ''-'' \<and> isTTY w)"
    and "readFileSync w (source_of file) (encoding a) = Inr content"
  shows "(body y w a file st = Inr (effects [ReadFileSync (source_of file)] st)
            \<longleftrightarrow> sortedContent y a content = Inr content) \<and>
         (body y w a file st =
            Inr (effects [ReadFileSync (source_of file), ConsoleWarn file] (st\<lparr>success := False\<rparr>))
            \<longleftrightarrow> (\<exists>sc. sortedContent y a content = Inr sc \<and> sc \<noteq> content))"
proof -
  let ?r = "ReadFileSync (source_of file)"
  have b: "body y w a file st =
     Inr (case sortedContent y a content of
            Inl e \<Rightarrow> effects [?r, ConsoleError e] (st\<lparr>success := False\<rparr>)
          | Inr sc \<Rightarrow> if sc \<noteq> content
                      then effects [?r, ConsoleWarn file] (st\<lparr>success := False\<rparr>)
                      else effects [?r] st)"
    using assms by (auto simp: body_def Let_def effects_def split: sum.splits)
  have t: "trace (effects evs s) = trace s @ evs" for evs s
    by (simp add: effects_def)
  show ?thesis
  proof (cases "sortedContent y a content")
    case (Inl e)
    then show ?thesis
      using b by (auto dest!: arg_cong [where f = trace] simp: t)
  next
    case (Inr sc)
    then show ?thesis
      using b by (auto dest!: arg_cong [where f = trace] simp: t)
  qed
qed

theorem check_sorted_iff_equal_witness:
  "check (ex_argv [] None True) \<and>
   \<not> (js ''a.yml'' = js ''-'' \<and> isTTY (ex_env False None)) \<and>
   readFileSync (ex_env False None) (source_of (js ''a.yml'')) (encoding (ex_argv [] None True))
     = Inr text_ba \<and>
   sortedContent ex_yaml (ex_argv [] None True) text_ba = Inr text_ab \<and>
   text_ab \<noteq> text_ba \<and>
   body ex_yaml (ex_env False None) (ex_argv [] None True) (js ''a.yml'') init =
     Inr (effects [ReadFileSync (source_of (js ''a.yml'')), ConsoleWarn (js ''a.yml'')]
            (init\<lparr>success := False\<rparr>))"
proof -
  let ?a = "ex_argv [] None True"
  let ?w = "ex_env False None"
  have 1: "check ?a" by code_simp
  have 2: "\<not> (js ''a.yml'' = js ''-'' \<and> isTTY ?w)" by code_simp
  have 3: "readFileSync ?w (source_of (js ''a.yml'')) (encoding ?a) = Inr text_ba" by code_simp
  have 4: "sortedContent ex_yaml ?a text_ba = Inr text_ab" by code_simp
  have 5: "text_ab \<noteq> text_ba" by code_simp
  from check_sorted_iff_equal [OF 1 2 3, of ex_yaml init] 4 5
  have "body ex_yaml ?w ?a (js ''a.yml'') init =
     Inr (effects [ReadFileSync (source_of (js ''a.yml'')), ConsoleWarn (js ''a.yml'')]
            (init\<lparr>success := False\<rparr>))"
    by blast
  with 1 2 3 4 5 show ?thesis by blast
qed

section \<open>The destination of the output\<close>

lemma write_targets_append:
  "write_targets (xs @ ys) = write_targets xs @ write_targets ys"
  by (induction xs rule: write_targets.induct) auto

lemma body_targets:
  assumes "body y w a file init = Inr d \<or> body y w a file init = Inl (c, d)"
  shows "set (write_targets (trace d)) \<subseteq> {output_of a file}"
  using assms
  by (auto simp: body_def Let_def effects_def init_def split: if_splits sum.splits)

lemma forEach_targets:
  "(forEach y w a files init = Inr d \<or> forEach y w a files init = Inl (c, d)) \<Longrightarrow>
     set (write_targets (trace d)) \<subseteq> output_of a ` set files"
proof (induction files arbitrary: d c)
  case Nil
  then show ?case by (auto simp: init_def)
next
  case (Cons f fs)
  show ?case
  proof (cases "body y w a f init")
    case (Inl ex)
    then show ?thesis
      using Cons.prems body_targets [of y w a f "snd ex" "fst ex"]
      by (cases ex) auto
  next
    case (Inr d0)
    have d0: "set (write_targets (trace d0)) \<subseteq> {output_of a f}"
      using body_targets [of y w a f d0] Inr by simp
    have fe: "forEach y w a (f # fs) init = forEach y w a fs d0"
      using Inr by simp
    show ?thesis
    proof (cases "forEach y w a fs init")
      case (Inl ex)
      obtain c' e where ex: "ex = (c', e)" by (cases ex)
      have "set (write_targets (trace e)) \<subseteq> output_of a ` set fs"
        using Cons.IH [of e c'] Inl ex by simp
      moreover have "forEach y w a (f # fs) init = Inl (c', after d0 e)"
        using fe forEach_after [of y w a fs d0] Inl ex by simp
      ultimately show ?thesis using Cons.prems d0
        by (auto simp: after_def write_targets_append)
    next
      case (Inr e)
      have "set (write_targets (trace e)) \<subseteq> output_of a ` set fs"
        using Cons.IH [of e c] Inr by simp
      moreover have "forEach y w a (f # fs) init = Inr (after d0 e)"
        using fe forEach_after [of y w a fs d0] Inr by simp
      ultimately show ?thesis using Cons.prems d0
        by (auto simp: after_def write_targets_append)
    qed
  qed
qed

lemma callback_targets: "write_targets (trace (callback w p st)) = write_targets (trace st)"
  by (simp add: callback_def effects_def write_targets_append split: option.splits)

lemma event_loop_targets: "write_targets (trace (event_loop w ps st)) = write_targets (trace st)"
  by (induction ps arbitrary: st) (simp_all add: callback_targets)

lemma main_targets: "set (write_targets (trace (snd (main y w a)))) \<subseteq> output_of a ` set (input a)"
proof (cases "forEach y w a (input a) init")
  case (Inl ex)
  then show ?thesis
    using forEach_targets [of y w a "input a" "snd ex" "fst ex"]
    by (simp add: main_def)
next
  case (Inr d)
  then have "set (write_targets (trace d)) \<subseteq> output_of a ` set (input a)"
    using forEach_targets [of y w a "input a" d] by simp
  then show ?thesis using Inr by (simp add: main_def event_loop_targets)
qed

text \<open>
  Claim C10.  The destination of an input's result: standard output if \<open>--stdout\<close> is
  set, or \<open>--output\<close> is \<open>.\<close>, or the input is \<open>-\<close> and no \<open>--output\<close> is given; otherwise
  the path of \<open>--output\<close> if it is given, the same for every input, so that every write of
  the run goes to that one path; otherwise the input's own path.  Every write of a run
  goes to the destination resolved for one of its inputs.  An option is given when its
  value is truthy, which is the test that the script makes.
\<close>

theorem output_resolution:
  "(stdout a \<or> output_arg a = Some (js ''.'') \<or> (file = js ''-'' \<and> \<not> truthy (output_arg a))
      \<longrightarrow> output_of a file = Fd stdout_fd) \<and>
   (\<not> stdout a \<and> output_arg a = Some p \<and> p \<noteq> js ''.'' \<and> p \<noteq> []
      \<longrightarrow> output_of a file = Path p \<and> set (write_targets (trace (snd (main y w a)))) \<subseteq> {Path p}) \<and>
   (\<not> stdout a \<and> \<not> truthy (output_arg a) \<and> file \<noteq> js ''-''
      \<longrightarrow> output_of a file = Path file) \<and>
   set (write_targets (trace (snd (main y w a)))) \<subseteq> output_of a ` set (input a)"
proof -
  have 1: "stdout a \<or> output_arg a = Some (js ''.'') \<or> (file = js ''-'' \<and> \<not> truthy (output_arg a))
      \<longrightarrow> output_of a file = Fd stdout_fd"
    by (simp add: output_of_def)
  have 2: "output_of a f = Path p" if "\<not> stdout a" "output_arg a = Some p" "p \<noteq> js ''.''" "p \<noteq> []" for f
    using that by (simp add: output_of_def truthy_def)
  have 3: "\<not> stdout a \<and> \<not> truthy (output_arg a) \<and> file \<noteq> js ''-''
      \<longrightarrow> output_of a file = Path file"
    by (auto simp: output_of_def truthy_def js_def split: option.splits)
  note 4 = main_targets [of y w a]
  have 5: "set (write_targets (trace (snd (main y w a)))) \<subseteq> {Path p}"
    if "\<not> stdout a" "output_arg a = Some p" "p \<noteq> js ''.''" "p \<noteq> []"
    using 4 2 [OF that] by auto
  show ?thesis using 1 2 3 4 5 by blast
qed

theorem output_resolution_witness:
  "\<not> stdout (ex_argv [js ''a.yml'', js ''sorted.yml''] (Some (js ''out.yml'')) False) \<and>
   output_arg (ex_argv [js ''a.yml'', js ''sorted.yml''] (Some (js ''out.yml'')) False) = Some (js ''out.yml'') \<and>
   js ''out.yml'' \<noteq> js ''.'' \<and> js ''out.yml'' \<noteq> [] \<and>
   output_of (ex_argv [js ''a.yml'', js ''sorted.yml''] (Some (js ''out.yml'')) False) (js ''a.yml'') = Path (js ''out.yml'') \<and>
   write_targets (trace (snd (main ex_yaml (ex_env False None) (ex_argv [js ''a.yml'', js ''sorted.yml''] (Some (js ''out.yml'')) False))))
     = [Path (js ''out.yml''), Path (js ''out.yml'')]"
proof -
  let ?a = "ex_argv [js ''a.yml'', js ''sorted.yml''] (Some (js ''out.yml'')) False"
  have 1: "\<not> stdout ?a" by code_simp
  have 2: "output_arg ?a = Some (js ''out.yml'')" by code_simp
  have 3: "js ''out.yml'' \<noteq> js ''.''" by code_simp
  have 4: "js ''out.yml'' \<noteq> []" by code_simp
  have 5: "write_targets (trace (snd (main ex_yaml (ex_env False None) ?a))) = [Path (js ''out.yml''), Path (js ''out.yml'')]"
    by code_simp
  from output_resolution [of ?a "js ''a.yml''" "js ''out.yml''" ex_yaml "ex_env False None"] 1 2 3 4
  have "output_of ?a (js ''a.yml'') = Path (js ''out.yml'')" by blast
  with 1 2 3 4 5 show ?thesis by blast
qed

section \<open>Failures and the exit code\<close>

lemma body_reads:
  "body y w a file init = Inr d \<Longrightarrow> ReadFileSync (source_of file) \<in> set (trace d)"
  by (auto simp: body_def Let_def effects_def init_def split: if_splits sum.splits)

lemma forEach_reads:
  "forEach y w a files init = Inr d \<Longrightarrow> f \<in> set files \<Longrightarrow>
     ReadFileSync (source_of f) \<in> set (trace d)"
proof (induction files arbitrary: d)
  case Nil
  then show ?case by simp
next
  case (Cons g gs)
  from Cons.prems(1) obtain d0 where d0: "body y w a g init = Inr d0"
    by (cases "body y w a g init") auto
  with Cons.prems(1) have "forEach y w a gs d0 = Inr d" by simp
  then obtain e where e: "forEach y w a gs init = Inr e" and d: "d = after d0 e"
    using forEach_after [of y w a gs d0]
    by (cases "forEach y w a gs init") (auto split: prod.splits)
  show ?case
  proof (cases "f = g")
    case True
    then show ?thesis using body_reads [OF d0] d by (simp add: after_def)
  next
    case False
    then have "f \<in> set gs" using Cons.prems(2) by simp
    then show ?thesis using Cons.IH [OF e] d by (simp add: after_def)
  qed
qed

lemma body_parse_failure:
  assumes "\<not> (file = js ''-'' \<and> isTTY w)"
    and "readFileSync w (source_of file) (encoding a) = Inr content"
    and "loadAll y content = Inl e"
  shows "body y w a file st =
     Inr (effects [ReadFileSync (source_of file), ConsoleError e] (st\<lparr>success := False\<rparr>))"
  using assms by (auto simp: body_def Let_def sortedContent_def effects_def)

lemma main_exit_code:
  "fst (main y w a) =
     (case forEach y w a (input a) init of
        Inl ex \<Rightarrow> fst ex
      | Inr st \<Rightarrow> if success st then 0 else 1)"
  by (simp add: main_def split: sum.splits)

text \<open>
  The \<open>catch\<close> of lines 132 to 135 at a parse failure: the exit code of the run is not
  zero, and unless a \<open>-\<close> input meets a terminal on standard input, the loop prints the
  exception, clears \<open>success\<close>, queues no write for that input and takes up the inputs
  after it, which have in the loop the effects that they have as a batch of their own.
\<close>

lemma parse_failure_loop:
  assumes "input a = pre @ bad # rest"
    and "readFileSync w (source_of bad) (encoding a) = Inr content"
    and "loadAll y content = Inl e"
  shows "fst (main y w a) \<noteq> 0 \<and>
    (\<not> (isTTY w \<and> js ''-'' \<in> set (input a)) \<longrightarrow>
      (\<exists>st1 d. forEach y w a pre init = Inr st1 \<and>
        body y w a bad st1 =
          Inr (effects [ReadFileSync (source_of bad), ConsoleError e] (st1\<lparr>success := False\<rparr>)) \<and>
        forEach y w a rest init = Inr d \<and>
        (\<forall>f \<in> set rest. ReadFileSync (source_of f) \<in> set (trace d)) \<and>
        main y w a =
          (1, after (effects [ReadFileSync (source_of bad), ConsoleError e]
                       (st1\<lparr>success := False\<rparr>)) d)))"
proof (cases "isTTY w \<and> js ''-'' \<in> set (input a)")
  case True
  then have "fst (main y w a) = 22"
    using forEach_misuse [of "input a" w y a init] by (auto simp: main_exit_code)
  then show ?thesis using True by simp
next
  case False
  let ?st2 = "\<lambda>st1. effects [ReadFileSync (source_of bad), ConsoleError e] (st1\<lparr>success := False\<rparr>)"
  from False assms(1) have np: "\<not> (isTTY w \<and> js ''-'' \<in> set pre)"
    and nb: "\<not> (bad = js ''-'' \<and> isTTY w)"
    and nr: "\<not> (isTTY w \<and> js ''-'' \<in> set rest)"
    by auto
  obtain st1 where st1: "forEach y w a pre init = Inr st1"
    using forEach_no_misuse [OF np] by blast
  obtain d where d: "forEach y w a rest init = Inr d"
    using forEach_no_misuse [OF nr] by blast
  have b: "body y w a bad st1 = Inr (?st2 st1)"
    by (rule body_parse_failure [OF nb assms(2) assms(3)])
  have "forEach y w a (input a) init = forEach y w a rest (?st2 st1)"
    using st1 b by (simp add: assms(1) forEach_append)
  also have "\<dots> = Inr (after (?st2 st1) d)"
    using forEach_after [of y w a rest "?st2 st1"] d by simp
  finally have fe: "forEach y w a (input a) init = Inr (after (?st2 st1) d)" .
  have ns: "\<not> success (after (?st2 st1) d)"
    by (simp add: after_def effects_def)
  have m: "main y w a = (1, after (?st2 st1) d)"
    using fe ns by (simp add: main_def)
  have r: "\<forall>f \<in> set rest. ReadFileSync (source_of f) \<in> set (trace d)"
    using forEach_reads [OF d] by blast
  show ?thesis using st1 b d r m by auto
qed

text \<open>
  When the loop ends with \<open>success\<close> cleared, line 139 ends the process at once: no
  callback runs, and every write that the loop has queued is still pending.
\<close>

lemma exit_1_leaves_writes_pending:
  "forEach y w a (input a) init = Inr st \<Longrightarrow> \<not> success st \<Longrightarrow> main y w a = (1, st)"
  by (simp add: main_def)

text \<open>
  Claim C9 at a parse failure in write mode.  With the inputs \<open>bad.yml\<close> and \<open>a.yml\<close>,
  \<open>bad.yml\<close> fails to parse and clears \<open>success\<close>; the loop goes on, \<open>a.yml\<close> is read and
  sorted and \<open>fs.writeFile\<close> is called for it.  Then line 139 ends the process with exit
  code 1 while that write is still queued: the remaining input is taken up, but its
  result is never written.
\<close>

theorem parse_failure_drops_write:
  "readFileSync (ex_env False None) (source_of (js ''bad.yml'')) (js ''utf8'') = Inr text_bad \<and>
   loadAll ex_yaml text_bad =
     Inl (YAMLException (js ''unexpected end of the stream within a single quoted scalar'')) \<and>
   main ex_yaml (ex_env False None) (ex_argv [js ''bad.yml'', js ''a.yml''] None False) =
     (1, \<lparr>success = False,
          trace = [ReadFileSync (Path (js ''bad.yml'')),
                   ConsoleError (YAMLException
                     (js ''unexpected end of the stream within a single quoted scalar'')),
                   ReadFileSync (Path (js ''a.yml'')),
                   WriteFile (Path (js ''a.yml'')) text_ab],
          pending = [(Path (js ''a.yml''), text_ab)]\<rparr>)"
  by code_simp

text \<open>
  The exit code is settled before any callback of \<open>fs.writeFile\<close> runs: it does not
  depend on the outcome of the writes.
\<close>

lemma body_ignores_writes: "body y (w\<lparr>writeFile := g\<rparr>) a file st = body y w a file st"
  by (simp add: body_def)

lemma forEach_ignores_writes: "forEach y (w\<lparr>writeFile := g\<rparr>) a files st = forEach y w a files st"
  by (induction files arbitrary: st) (simp_all add: body_ignores_writes split: sum.splits)

lemma exit_code_ignores_writes: "fst (main y (w\<lparr>writeFile := g\<rparr>) a) = fst (main y w a)"
  by (simp add: main_exit_code forEach_ignores_writes)

text \<open>
  Claim C1 at a failing write.  The input \<open>a.yml\<close> is read and sorted, and the write to
  \<open>a.yml\<close> fails with \<open>EACCES\<close>.  The callback prints the error and clears \<open>success\<close>,
  after line 138 has tested the flag: the exit code is 0.
\<close>

theorem write_failure_exit_code:
  "writeFile (ex_env False (Some (IOError (js ''EACCES'')))) (Path (js ''a.yml'')) text_ab
     = Some (IOError (js ''EACCES'')) \<and>
   main ex_yaml (ex_env False (Some (IOError (js ''EACCES'')))) (ex_argv [js ''a.yml''] None False) =
     (0, \<lparr>success = False,
          trace = [ReadFileSync (Path (js ''a.yml'')), WriteFile (Path (js ''a.yml'')) text_ab,
                   ConsoleError (IOError (js ''EACCES''))],
          pending = []\<rparr>)"
  by code_simp

section \<open>The document-start marker\<close>

lemma js_dashes: "js ''---'' = [0x2D, 0x2D, 0x2D]"
  by (simp add: js_def)

lemma startsWith_marker: "startsWith (marker @ s) (js ''---'')"
  by (simp add: startsWith_def marker_def js_dashes)



lemma dumped_text_append:
  assumes "dumped_text s"
  shows "\<not> startsWith (s @ t) (js ''---'')"
proof -
  from assms have ne: "s \<noteq> []" and l: "last s = LF" and n: "\<not> startsWith s (js ''---'')"
    by (simp_all add: dumped_text_def)
  consider c where "s = [c]" | c d where "s = [c, d]" | c d e r where "s = c # d # e # r"
    using ne by (metis neq_Nil_conv)
  then show ?thesis
  proof cases
    case 1
    with l show ?thesis by (simp add: startsWith_def js_dashes LF_def)
  next
    case 2
    with l show ?thesis by (simp add: startsWith_def js_dashes LF_def)
  next
    case 3
    with n show ?thesis by (simp add: startsWith_def js_dashes)
  qed
qed

lemma join_Cons: "join sep (x # xs) = x @ (if xs = [] then [] else sep @ join sep xs)"
  by (cases xs) simp_all

lemma join_dumped_no_start:
  assumes "list_all dumped_text ss"
  shows "\<not> startsWith (join marker ss) (js ''---'')"
proof (cases ss)
  case Nil
  then show ?thesis by (simp add: startsWith_def js_dashes)
next
  case (Cons s rest)
  then have "dumped_text s" using assms by simp
  then show ?thesis
    unfolding Cons join_Cons by (rule dumped_text_append)
qed


lemma sortedContent_Inr:
  assumes "loadAll y content = Inr documents"
    and "map_dump (\<lambda>doc. dump y doc (dump_opts a)) documents = Inr sortedDocuments"
  shows "sortedContent y a content =
     Inr ((if hasDocumentStart content then marker else []) @ join marker sortedDocuments)"
  using assms by (simp add: sortedContent_def)

text \<open>
  Claim C5.  For an input that parses and whose documents serialize, the serialized
  texts being what \<open>dump\<close> returns (ended by a line feed, not begun by three dashes), the
  output begins with \<open>---\<close> if and only if the text read, with its leading white space
  trimmed, begins with \<open>---\<close>.
\<close>

theorem document_start_preserved:
  assumes "loadAll y content = Inr documents"
    and "map_dump (\<lambda>doc. dump y doc (dump_opts a)) documents = Inr sortedDocuments"
    and "list_all dumped_text sortedDocuments"
  shows "\<exists>out. sortedContent y a content = Inr out \<and>
           (startsWith out (js ''---'') \<longleftrightarrow> startsWith (trimStart content) (js ''---''))"
proof (cases "hasDocumentStart content")
  case True
  then show ?thesis
    using sortedContent_Inr [OF assms(1,2)]
    by (simp add: startsWith_marker) (simp add: hasDocumentStart_def)
next
  case False
  then show ?thesis
    using sortedContent_Inr [OF assms(1,2)] join_dumped_no_start [OF assms(3)]
    by (simp add: hasDocumentStart_def)
qed

theorem document_start_preserved_witness:
  "loadAll ex_yaml text_marked = Inr [doc_ba] \<and>
   map_dump (\<lambda>doc. dump ex_yaml doc (dump_opts (ex_argv [] None False))) [doc_ba] = Inr [text_ab] \<and>
   list_all dumped_text [text_ab] \<and>
   sortedContent ex_yaml (ex_argv [] None False) text_marked = Inr (marker @ text_ab) \<and>
   startsWith (marker @ text_ab) (js ''---'') \<and>
   startsWith (trimStart text_marked) (js ''---'')"
proof -
  let ?a = "ex_argv [] None False"
  have 1: "loadAll ex_yaml text_marked = Inr [doc_ba]" by code_simp
  have 2: "map_dump (\<lambda>doc. dump ex_yaml doc (dump_opts ?a)) [doc_ba] = Inr [text_ab]"
    by code_simp
  have 3: "list_all dumped_text [text_ab]" by code_simp
  have 4: "sortedContent ex_yaml ?a text_marked = Inr (marker @ text_ab)" by code_simp
  from document_start_preserved [OF 1 2 3] 4
  have "startsWith (marker @ text_ab) (js ''---'') \<longleftrightarrow> startsWith (trimStart text_marked) (js ''---'')"
    by simp
  moreover have "startsWith (marker @ text_ab) (js ''---'')" by code_simp
  ultimately show ?thesis using 1 2 3 4 by blast
qed

section \<open>The documents of the output\<close>

lemma lines_of_Nil: "lines_of s = [] \<longleftrightarrow> s = []"
  by (cases s) (auto split: list.splits)

lemma concat_lines_of: "concat (lines_of s) = s"
  by (induction s) (auto split: list.splits)

lemma lines_of_append:
  "s \<noteq> [] \<Longrightarrow> last s = LF \<Longrightarrow> lines_of (s @ t) = lines_of s @ lines_of t"
proof (induction s)
  case Nil
  then show ?case by simp
next
  case (Cons c cs)
  show ?case
  proof (cases "cs = []")
    case True
    with Cons.prems show ?thesis by simp
  next
    case False
    with Cons.prems have "last cs = LF" by simp
    with False Cons.IH have ih: "lines_of (cs @ t) = lines_of cs @ lines_of t" by simp
    from False obtain l ls where "lines_of cs = l # ls"
      using lines_of_Nil [of cs] by (cases "lines_of cs") auto
    with ih show ?thesis by simp
  qed
qed

lemma lines_of_marker: "lines_of marker = [marker]"
  by (simp add: marker_def js_dashes LF_def)

lemma lines_of_marker_append: "lines_of (marker @ t) = marker # lines_of t"
  using lines_of_append [of marker t] 
  by (simp add: lines_of_marker) (simp add: marker_def)

lemma groups_single: "marker \<notin> set ls \<Longrightarrow> groups ls = [ls]"
  by (induction ls) auto

lemma groups_append: "marker \<notin> set ls \<Longrightarrow> groups (ls @ marker # rest) = ls # groups rest"
  by (induction ls) auto

lemma lines_of_join:
  "list_all separable ss \<Longrightarrow> ss \<noteq> [] \<Longrightarrow>
     groups (lines_of (join marker ss)) = map lines_of ss"
proof (induction ss)
  case Nil
  then show ?case by simp
next
  case (Cons x xs)
  then have x: "x \<noteq> []" "last x = LF" "marker \<notin> set (lines_of x)"
    by (simp_all add: separable_def)
  show ?case
  proof (cases xs)
    case Nil
    then show ?thesis using x by (simp add: groups_single)
  next
    case (Cons y ys)
    have "lines_of (join marker (x # xs)) = lines_of x @ marker # lines_of (join marker xs)"
      using x Cons by (simp add: lines_of_append lines_of_marker_append)
    moreover have "groups (lines_of (join marker xs)) = map lines_of xs"
      using Cons.IH Cons.prems Cons by simp
    ultimately show ?thesis using x by (simp add: groups_append)
  qed
qed

lemma hd_lines_of_join:
  assumes "list_all separable ss" and "lines_of (join marker ss) = l # ls"
  shows "l \<noteq> marker"
proof (cases ss)
  case Nil
  with assms(2) show ?thesis by simp
next
  case (Cons x xs)
  then have x: "x \<noteq> []" "last x = LF" "marker \<notin> set (lines_of x)"
    using assms(1) by (simp_all add: separable_def)
  obtain k ks where k: "lines_of x = k # ks"
    using x(1) lines_of_Nil [of x] by (cases "lines_of x") auto
  have "lines_of (join marker ss) = lines_of x @ lines_of (if xs = [] then [] else marker @ join marker xs)"
    unfolding Cons join_Cons using x by (simp add: lines_of_append)
  with assms(2) k have "l = k" by simp
  with k x(3) show ?thesis by auto
qed

lemma documents_in_join:
  assumes "list_all separable ss"
  shows "documents_in (join marker ss) = ss" and "documents_in (marker @ join marker ss) = ss"
proof -
  have m: "map concat (map lines_of ss) = ss"
    by (simp add: concat_lines_of comp_def)
  have e: "lines_of (join marker ss) = [] \<longleftrightarrow> ss = []"
  proof (cases ss)
    case Nil
    then show ?thesis by simp
  next
    case (Cons x xs)
    then have "x \<noteq> []" using assms by (simp add: separable_def)
    then show ?thesis unfolding Cons join_Cons by (simp add: lines_of_Nil)
  qed
  show "documents_in (marker @ join marker ss) = ss"
    using e lines_of_join [OF assms] m
    using lines_of_marker_append [of "[]"]
    by (cases "ss = []") (simp_all add: documents_in_def lines_of_marker_append)
  show "documents_in (join marker ss) = ss"
  proof (cases "lines_of (join marker ss)")
    case Nil
    then show ?thesis using e by (simp add: documents_in_def)
  next
    case (Cons l ls)
    then have "l \<noteq> marker" using hd_lines_of_join [OF assms] by simp
    moreover have "ss \<noteq> []" using e Cons by auto
    ultimately show ?thesis
      using Cons lines_of_join [OF assms] m by (simp add: documents_in_def)
  qed
qed

lemma map_dump_Inr:
  "map_dump f ds = Inr ss \<Longrightarrow>
     length ss = length ds \<and> (\<forall>i < length ds. f (ds ! i) = Inr (ss ! i))"
proof (induction ds arbitrary: ss)
  case Nil
  then show ?case by simp
next
  case (Cons d ds)
  then obtain s ss' where s: "f d = Inr s" "map_dump f ds = Inr ss'" "ss = s # ss'"
    by (auto split: sum.splits)
  with Cons.IH [of ss'] show ?case
    by (auto simp: nth_Cons split: nat.splits)
qed

text \<open>
  Claim C6.  For an input that parses and whose documents serialize, no serialized text
  holding a marker line of its own, the output holds as many documents as \<open>loadAll\<close>
  found in the input, and its documents are, one by one and in the same order, the
  serialized documents of the input.
\<close>

theorem document_count_preserved:
  assumes "loadAll y content = Inr documents"
    and "map_dump (\<lambda>doc. dump y doc (dump_opts a)) documents = Inr sortedDocuments"
    and "list_all separable sortedDocuments"
  shows "\<exists>out. sortedContent y a content = Inr out \<and>
           length (documents_in out) = length documents \<and>
           (\<forall>i < length documents.
              dump y (documents ! i) (dump_opts a) = Inr (documents_in out ! i))"
proof -
  let ?out = "(if hasDocumentStart content then marker else []) @ join marker sortedDocuments"
  have "documents_in ?out = sortedDocuments"
    using documents_in_join [OF assms(3)] by simp
  then show ?thesis
    using sortedContent_Inr [OF assms(1,2)] map_dump_Inr [OF assms(2)] by simp
qed

theorem document_count_preserved_witness:
  "loadAll ex_yaml text_two =
     Inr [Mapping [(js ''b'', Scalar (js ''1''))], Mapping [(js ''a'', Scalar (js ''1''))]] \<and>
   map_dump (\<lambda>doc. dump ex_yaml doc (dump_opts (ex_argv [] None False)))
     [Mapping [(js ''b'', Scalar (js ''1''))], Mapping [(js ''a'', Scalar (js ''1''))]] =
     Inr [js ''b: 1'' @ [LF], js ''a: 1'' @ [LF]] \<and>
   list_all separable [js ''b: 1'' @ [LF], js ''a: 1'' @ [LF]] \<and>
   sortedContent ex_yaml (ex_argv [] None False) text_two = Inr text_two \<and>
   documents_in text_two = [js ''b: 1'' @ [LF], js ''a: 1'' @ [LF]]"
proof -
  let ?a = "ex_argv [] None False"
  let ?ds = "[Mapping [(js ''b'', Scalar (js ''1''))], Mapping [(js ''a'', Scalar (js ''1''))]]"
  let ?ss = "[js ''b: 1'' @ [LF], js ''a: 1'' @ [LF]]"
  have 1: "loadAll ex_yaml text_two = Inr ?ds" by code_simp
  have 2: "map_dump (\<lambda>doc. dump ex_yaml doc (dump_opts ?a)) ?ds = Inr ?ss" by code_simp
  have 3: "list_all separable ?ss" by code_simp
  have 4: "sortedContent ex_yaml ?a text_two = Inr text_two" by code_simp
  have 5: "documents_in text_two = ?ss" by code_simp
  from document_count_preserved [OF 1 2 3] 4
  have "length (documents_in text_two) = length ?ds" by simp
  with 1 2 3 4 5 show ?thesis by blast
qed

section \<open>Sorted keys\<close>

lemma insort_key_map:
  assumes "\<And>x. f (h x) = f x"
  shows "map h (insort_key f x xs) = insort_key f (h x) (map h xs)"
  by (induction xs) (simp_all add: assms)

lemma sort_key_map:
  assumes "\<And>x. f (h x) = f x"
  shows "map h (sort_key f xs) = sort_key f (map h xs)"
  by (induction xs) (simp_all add: insort_key_map [of f h, OF assms])

lemma sort_keys_idem: "sort_keys (sort_keys d) = sort_keys d"
proof (induction d)
  case (Scalar s)
  show ?case by simp
next
  case (Sequence xs)
  then show ?case by simp
next
  case (Mapping kvs)
  let ?g = "map_prod id sort_keys"
  have g: "map ?g (map ?g kvs) = map ?g kvs"
    using Mapping by (auto simp: map_prod_def split: prod.splits)
  have "map ?g (sort_key fst (map ?g kvs)) = sort_key fst (map ?g (map ?g kvs))"
    by (rule sort_key_map) simp
  then have "sort_key fst (map ?g (sort_key fst (map ?g kvs))) = sort_key fst (map ?g kvs)"
    by (simp only: g sort_key_id_if_sorted sorted_sort_key)
  then show ?case by simp
qed

lemma map_sort_keys_idem: "map sort_keys (map sort_keys ds) = map sort_keys ds"
  by (simp add: sort_keys_idem)










section \<open>Sorting twice\<close>






end
